theory Spec2Isabelle
  imports Complex_Main "HOL-Library.Word"
begin

unbundle bit_operations_syntax

section \<open>Session Store (src/imu_server/IMU_server.py)\<close>

text \<open>
  \<^verbatim>\<open>full_dataset\<close> is a dictionary of eleven Python lists. The nine sensor lists hold
  the samples, \<^verbatim>\<open>timestamps\<close> the elapsed times; \<^verbatim>\<open>reaction_times\<close> is never written.
\<close>

record 'a dataset =
  acc_x :: "'a list"
  acc_y :: "'a list"
  acc_z :: "'a list"
  gyro_x :: "'a list"
  gyro_y :: "'a list"
  gyro_z :: "'a list"
  mag_x :: "'a list"
  mag_y :: "'a list"
  mag_z :: "'a list"
  timestamps :: "real list"
  reaction_times :: "real list"

section \<open>Frame Codec (IMU_Server.send_request, IMU_Server.receive_response)\<close>

type_synonym byte = "8 word"
type_synonym u16 = "16 word"

text \<open>
  A sample is the Python float that \<^verbatim>\<open>struct.unpack('<fff', payload)\<close> makes of a
  binary32 field. It is written as the binary32 pattern that \<^verbatim>\<open>struct.pack('<f', v)\<close>
  gives back for it. Widening binary32 to the double of a Python float is exact, with
  one exception: a signalling NaN comes out as the quiet NaN of the same sign and
  payload. So the samples are the patterns that are not signalling NaNs.
\<close>

type_synonym f32 = "32 word"

definition is_nan32 :: "32 word \<Rightarrow> bool" where
  "is_nan32 w = (w AND 0x7F800000 = 0x7F800000 \<and> w AND 0x007FFFFF \<noteq> 0)"

definition is_snan32 :: "32 word \<Rightarrow> bool" where
  "is_snan32 w = (is_nan32 w \<and> w AND 0x00400000 = 0)"

text \<open>The Python float read from a binary32 pattern.\<close>

definition py_float :: "32 word \<Rightarrow> f32" where
  "py_float w = (if is_nan32 w then w OR 0x00400000 else w)"

definition REQUEST_SIZE :: nat where
  "REQUEST_SIZE = 4"

definition RESPONSE_PAYLOAD_SIZE :: nat where
  "RESPONSE_PAYLOAD_SIZE = 12"

definition REQ_READ_ACCELERATION :: byte where
  "REQ_READ_ACCELERATION = 0x51"

definition REQ_READ_GYROSCOPE :: byte where
  "REQ_READ_GYROSCOPE = 0x52"

definition REQ_READ_MAGNETOMETER :: byte where
  "REQ_READ_MAGNETOMETER = 0x53"

definition REQ_START_LED_GAME :: byte where
  "REQ_START_LED_GAME = 0x54"

text \<open>\<^verbatim>\<open>struct.pack('<B3s', request_type, req_payload)\<close>: one byte, then exactly three
  bytes of the payload (cut or padded with zero bytes).\<close>

definition struct_pack_B3s :: "byte \<Rightarrow> byte list \<Rightarrow> byte list" where
  "struct_pack_B3s request_type req_payload = request_type # take 3 (req_payload @ replicate 3 0)"

text \<open>Little-endian assembly of one 32-bit and one 16-bit field from its bytes.\<close>

definition le32 :: "byte \<Rightarrow> byte \<Rightarrow> byte \<Rightarrow> byte \<Rightarrow> 32 word" where
  "le32 b0 b1 b2 b3 =
     ucast b0 OR push_bit 8 (ucast b1) OR push_bit 16 (ucast b2) OR push_bit 24 (ucast b3)"

definition le16 :: "byte \<Rightarrow> byte \<Rightarrow> u16" where
  "le16 b0 b1 = ucast b0 OR push_bit 8 (ucast b1)"

text \<open>\<^verbatim>\<open>struct.unpack\<close> raises \<^verbatim>\<open>struct.error\<close> (here \<open>None\<close>) unless the buffer has
  exactly the size of the format, 12 bytes for both formats.\<close>

definition struct_unpack_fff :: "byte list \<Rightarrow> (f32 \<times> f32 \<times> f32) option" where
  "struct_unpack_fff p =
     (if length p = 12
      then Some (py_float (le32 (p ! 0) (p ! 1) (p ! 2) (p ! 3)),
                 py_float (le32 (p ! 4) (p ! 5) (p ! 6) (p ! 7)),
                 py_float (le32 (p ! 8) (p ! 9) (p ! 10) (p ! 11)))
      else None)"

definition struct_unpack_6H :: "byte list \<Rightarrow> u16 list option" where
  "struct_unpack_6H p =
     (if length p = 12
      then Some [le16 (p ! 0) (p ! 1), le16 (p ! 2) (p ! 3), le16 (p ! 4) (p ! 5),
                 le16 (p ! 6) (p ! 7), le16 (p ! 8) (p ! 9), le16 (p ! 10) (p ! 11)]
      else None)"

text \<open>
  The wire contract of the specification, written from its words: a 32-bit field and a
  16-bit field are sent least significant byte first. These two encoders are the
  device's side of the protocol; the repository only decodes.
\<close>

definition wire_f32 :: "32 word \<Rightarrow> byte list" where
  "wire_f32 w = [ucast w, ucast (drop_bit 8 w), ucast (drop_bit 16 w), ucast (drop_bit 24 w)]"

definition wire_u16 :: "u16 \<Rightarrow> byte list" where
  "wire_u16 w = [ucast w, ucast (drop_bit 8 w)]"

section \<open>Server state\<close>

datatype log_data = XYZ f32 f32 f32 | LedGame u16 u16 u16 u16 u16 u16

datatype log_entry = LogEntry (entry_timestamp: string) (entry_type: string) (entry_data: log_data)

text \<open>
  What an append leaves in the log file: the whole line of an entry, or, when the write
  raised on the way, the first \<open>n\<close> bytes of that line. A line is written as the entry
  it is the JSON text of.
\<close>

datatype log_line = Line log_entry | Fragment log_entry nat

text \<open>
  The fields of \<^verbatim>\<open>IMU_Server\<close> that the acquisition code reads or writes.
  \<open>client_socket\<close> is \<open>True\<close> while the attribute holds a socket object and \<open>False\<close>
  when it is \<^verbatim>\<open>None\<close> (\<^verbatim>\<open>client_address\<close> is set and cleared with it).
  \<open>log_file\<close> is what has been appended to \<^verbatim>\<open>sensor_metrics.json\<close>, in order, and
  \<open>wire\<close> the sequence of frames handed to \<^verbatim>\<open>client_socket.send\<close>.
\<close>

record server =
  client_socket :: bool
  full_dataset :: "f32 dataset"
  last_accel_x :: f32
  last_accel_y :: f32
  last_accel_z :: f32
  last_gyro_x :: f32
  last_gyro_y :: f32
  last_gyro_z :: f32
  last_mag_x :: f32
  last_mag_y :: f32
  last_mag_z :: f32
  log_file :: "log_line list"
  wire :: "byte list list"

text \<open>\<^verbatim>\<open>IMU_Server.__init__\<close>; the float \<^verbatim>\<open>0.0\<close> is the all-zero pattern.\<close>

definition IMU_Server_init :: server where
  "IMU_Server_init =
     \<lparr> client_socket = False,
       full_dataset = \<lparr> acc_x = [], acc_y = [], acc_z = [],
                        gyro_x = [], gyro_y = [], gyro_z = [],
                        mag_x = [], mag_y = [], mag_z = [],
                        timestamps = [], reaction_times = [] \<rparr>,
       last_accel_x = 0, last_accel_y = 0, last_accel_z = 0,
       last_gyro_x = 0, last_gyro_y = 0, last_gyro_z = 0,
       last_mag_x = 0, last_mag_y = 0, last_mag_z = 0,
       log_file = [], wire = [] \<rparr>"

text \<open>What the environment does at one I/O call.\<close>

datatype send_result = Sent | SendRaises

datatype recv_result = Recv "byte list" | RecvRaises

text \<open>
  Opening the log file and writing one line to it: the line is written, or the call
  raises after \<open>n\<close> bytes of the line have reached the file (\<open>n = 0\<close>: none has, as when
  the file cannot be opened).
\<close>

datatype log_result = Written | WriteRaises nat

text \<open>\<^verbatim>\<open>socket.recv(n)\<close> returns at most \<open>n\<close> bytes, or raises (\<open>None\<close>).\<close>

definition sock_recv :: "nat \<Rightarrow> recv_result \<Rightarrow> byte list option" where
  "sock_recv n r = (case r of Recv bs \<Rightarrow> Some (take n bs) | RecvRaises \<Rightarrow> None)"

text \<open>The environment of one call of \<^verbatim>\<open>receive_response\<close>: the three reads, the clock
  string of the log entry, and what appending to the log file does.\<close>

record resp_io =
  io_type :: recv_result
  io_reserved :: recv_result
  io_payload :: recv_result
  io_now :: string
  io_log :: log_result

datatype exn = OSError | StructError

text \<open>A call either returns or raises; in both cases the mutations it made so far stay.\<close>

datatype outcome = Returned server | Raised exn server

definition handle_disconnection :: "server \<Rightarrow> server" where
  "handle_disconnection s = (if client_socket s then s\<lparr>client_socket := False\<rparr> else s)"

definition log_data :: "server \<Rightarrow> log_result \<Rightarrow> log_entry \<Rightarrow> outcome" where
  "log_data s res entry =
     (case res of
        Written \<Rightarrow> Returned (s\<lparr>log_file := log_file s @ [Line entry]\<rparr>)
      | WriteRaises n \<Rightarrow>
          Raised OSError
            (if n = 0 then s else s\<lparr>log_file := log_file s @ [Fragment entry n]\<rparr>))"

definition processAcceleration :: "server \<Rightarrow> string \<Rightarrow> log_result \<Rightarrow> f32 \<Rightarrow> f32 \<Rightarrow> f32 \<Rightarrow> outcome" where
  "processAcceleration s now ok x y z =
     log_data (s\<lparr>last_accel_x := x, last_accel_y := y, last_accel_z := z\<rparr>) ok
       (LogEntry now ''acceleration'' (XYZ x y z))"

definition processGyroscope :: "server \<Rightarrow> string \<Rightarrow> log_result \<Rightarrow> f32 \<Rightarrow> f32 \<Rightarrow> f32 \<Rightarrow> outcome" where
  "processGyroscope s now ok x y z =
     log_data (s\<lparr>last_gyro_x := x, last_gyro_y := y, last_gyro_z := z\<rparr>) ok
       (LogEntry now ''gyroscope'' (XYZ x y z))"

definition processMagnetometer :: "server \<Rightarrow> string \<Rightarrow> log_result \<Rightarrow> f32 \<Rightarrow> f32 \<Rightarrow> f32 \<Rightarrow> outcome" where
  "processMagnetometer s now ok x y z =
     log_data (s\<lparr>last_mag_x := x, last_mag_y := y, last_mag_z := z\<rparr>) ok
       (LogEntry now ''magnetometer'' (XYZ x y z))"

definition processLEDGame ::
  "server \<Rightarrow> string \<Rightarrow> log_result \<Rightarrow> u16 \<Rightarrow> u16 \<Rightarrow> u16 \<Rightarrow> u16 \<Rightarrow> u16 \<Rightarrow> u16 \<Rightarrow> outcome" where
  "processLEDGame s now ok red_on red_success green_on green_success blue_on blue_success =
     log_data s ok
       (LogEntry now ''led_game'' (LedGame red_on red_success green_on green_success blue_on blue_success))"

definition send_request :: "server \<Rightarrow> byte \<Rightarrow> send_result \<Rightarrow> server" where
  "send_request s request_type r =
     (if \<not> client_socket s then s
      else case r of
             Sent \<Rightarrow> s\<lparr>wire := wire s @ [struct_pack_B3s request_type [0x01, 0x02, 0x03]]\<rparr>
           | SendRaises \<Rightarrow> handle_disconnection s)"

text \<open>The \<^verbatim>\<open>except Exception\<close> clause of \<^verbatim>\<open>receive_response\<close>: whatever the body
  raised, the state it left is passed to \<^verbatim>\<open>handle_disconnection\<close> and the call returns.\<close>

definition caught :: "outcome \<Rightarrow> server" where
  "caught r = (case r of Returned s \<Rightarrow> s | Raised e s \<Rightarrow> handle_disconnection s)"

definition receive_response :: "server \<Rightarrow> resp_io \<Rightarrow> server" where
  "receive_response s io =
     (if \<not> client_socket s then s
      else caught
        (case sock_recv 1 (io_type io) of
           None \<Rightarrow> Raised OSError s
         | Some resp_type_arr \<Rightarrow>
             if resp_type_arr = [] then Returned s
             else
               let resp_type = resp_type_arr ! 0 in
               (case sock_recv 3 (io_reserved io) of
                  None \<Rightarrow> Raised OSError s
                | Some reserved_data \<Rightarrow>
                    (case sock_recv RESPONSE_PAYLOAD_SIZE (io_payload io) of
                       None \<Rightarrow> Raised OSError s
                     | Some payload \<Rightarrow>
                         if length payload \<noteq> RESPONSE_PAYLOAD_SIZE then Returned s
                         else if resp_type = REQ_READ_ACCELERATION then
                           (case struct_unpack_fff payload of
                              None \<Rightarrow> Raised StructError s
                            | Some (x, y, z) \<Rightarrow> processAcceleration s (io_now io) (io_log io) x y z)
                         else if resp_type = REQ_READ_GYROSCOPE then
                           (case struct_unpack_fff payload of
                              None \<Rightarrow> Raised StructError s
                            | Some (x, y, z) \<Rightarrow> processGyroscope s (io_now io) (io_log io) x y z)
                         else if resp_type = REQ_READ_MAGNETOMETER then
                           (case struct_unpack_fff payload of
                              None \<Rightarrow> Raised StructError s
                            | Some (x, y, z) \<Rightarrow> processMagnetometer s (io_now io) (io_log io) x y z)
                         else if resp_type = REQ_START_LED_GAME then
                           (case struct_unpack_6H payload of
                              Some [d0, d1, d2, d3, d4, d5] \<Rightarrow>
                                processLEDGame s (io_now io) (io_log io) d0 d1 d2 d3 d4 d5
                            | _ \<Rightarrow> Raised StructError s)
                         else Returned s))))"

section \<open>Poll Scheduler (IMU_Server.start)\<close>

text \<open>
  The environment of one pass through the body of the \<^verbatim>\<open>while\<close> loop: the outcome of
  each send and receive, and the clock read for the timestamp. The last two fields are
  consulted only when the LED game branch is taken.
\<close>

record cycle_io =
  acc_send :: send_result
  acc_resp :: resp_io
  gyro_send :: send_result
  gyro_resp :: resp_io
  mag_send :: send_result
  mag_resp :: resp_io
  stamp_clock :: real
  led_send :: send_result
  led_resp :: resp_io

text \<open>Lines 342-352: one value is appended to each of the ten lists.\<close>

definition store_data :: "real \<Rightarrow> server \<Rightarrow> server" where
  "store_data elapsed s =
     s\<lparr>full_dataset :=
         (full_dataset s)
           \<lparr>timestamps := timestamps (full_dataset s) @ [elapsed],
            acc_x := acc_x (full_dataset s) @ [last_accel_x s],
            acc_y := acc_y (full_dataset s) @ [last_accel_y s],
            acc_z := acc_z (full_dataset s) @ [last_accel_z s],
            gyro_x := gyro_x (full_dataset s) @ [last_gyro_x s],
            gyro_y := gyro_y (full_dataset s) @ [last_gyro_y s],
            gyro_z := gyro_z (full_dataset s) @ [last_gyro_z s],
            mag_x := mag_x (full_dataset s) @ [last_mag_x s],
            mag_y := mag_y (full_dataset s) @ [last_mag_y s],
            mag_z := mag_z (full_dataset s) @ [last_mag_z s]\<rparr>\<rparr>"

text \<open>Lines 334-340: the three sensor requests, each followed by its receive.\<close>

definition collect_sensors :: "cycle_io \<Rightarrow> server \<Rightarrow> server" where
  "collect_sensors io s =
     (let s1 = send_request s REQ_READ_ACCELERATION (acc_send io);
          s2 = receive_response s1 (acc_resp io);
          s3 = send_request s2 REQ_READ_GYROSCOPE (gyro_send io);
          s4 = receive_response s3 (gyro_resp io);
          s5 = send_request s4 REQ_READ_MAGNETOMETER (mag_send io)
      in receive_response s5 (mag_resp io))"

text \<open>
  Lines 334-359, the loop body after the reconnection test, for the local variables
  \<^verbatim>\<open>start_time\<close> and \<^verbatim>\<open>led_game_counter\<close>; it returns the new counter with the state.
\<close>

definition start_loop_body :: "real \<Rightarrow> nat \<Rightarrow> cycle_io \<Rightarrow> server \<Rightarrow> nat \<times> server" where
  "start_loop_body start_time led_game_counter io s =
     (let s6 = collect_sensors io s;
          s7 = store_data (stamp_clock io - start_time) s6;
          led_game_counter1 = led_game_counter + 1
      in if led_game_counter1 \<ge> 10
         then (0, receive_response (send_request s7 REQ_START_LED_GAME (led_send io)) (led_resp io))
         else (led_game_counter1, s7))"

text \<open>
  The world seen by one call of \<^verbatim>\<open>start\<close>: the clock at which \<^verbatim>\<open>accept\<close> returned
  (\<^verbatim>\<open>start_time\<close>), and one tick for every evaluation of the loop condition. A tick
  holds the clock read by the condition, the world of the nested call of
  \<^verbatim>\<open>self.start()\<close> that the body makes when \<^verbatim>\<open>client_socket\<close> is \<^verbatim>\<open>None\<close>
  (\<open>None\<close>: no client ever connects again and \<^verbatim>\<open>accept\<close> blocks for ever), and the I/O
  of the body. After the last tick of the list the clock is past the bound, so the loop
  ends there at the latest.
\<close>

datatype world = World real "tick list"
  and tick = Tick (tick_clock: real) (tick_reconnect: "world option") (tick_io: cycle_io)

text \<open>
  \<^verbatim>\<open>start\<close> and its \<^verbatim>\<open>while\<close> loop. \<open>None\<close> is a call that never returns. Plotting
  and report generation after the loop are done by collaborators and leave the fields
  modelled here unchanged; binding and listening are taken to succeed.
\<close>

fun start :: "world \<Rightarrow> server \<Rightarrow> server option"
  and start_loop :: "real \<Rightarrow> nat \<Rightarrow> tick list \<Rightarrow> server \<Rightarrow> (nat \<times> server) option"
where
  "start (World start_time ticks) s =
     (case start_loop start_time 0 ticks (s\<lparr>client_socket := True\<rparr>) of
        None \<Rightarrow> None
      | Some (c, s') \<Rightarrow> Some (if client_socket s' then s'\<lparr>client_socket := False\<rparr> else s'))"
| "start_loop start_time c [] s = Some (c, s)"
| "start_loop start_time c (Tick now reconnect io # ticks) s =
     (if now - start_time < 30 then
        (case (if \<not> client_socket s
               then (case reconnect of None \<Rightarrow> None | Some w \<Rightarrow> start w s)
               else Some s) of
           None \<Rightarrow> None
         | Some s1 \<Rightarrow>
             (case start_loop_body start_time c io s1 of
                (c', s2) \<Rightarrow> start_loop start_time c' ticks s2))
      else Some (c, s))"

section \<open>Reference notions and sample inputs\<close>

text \<open>
  The response of a device that follows the wire contract to the request of kind \<open>k\<close>:
  the kind byte of the request frame, three reserved bytes, and the payload of the
  contract for the patterns \<open>x\<close>, \<open>y\<close>, \<open>z\<close>; the log file can be written.
\<close>

definition sensor_response ::
  "byte \<Rightarrow> byte list \<Rightarrow> 32 word \<Rightarrow> 32 word \<Rightarrow> 32 word \<Rightarrow> string \<Rightarrow> resp_io" where
  "sensor_response k r x y z now =
     \<lparr> io_type = Recv [struct_pack_B3s k [0x01, 0x02, 0x03] ! 0], io_reserved = Recv r,
       io_payload = Recv (wire_f32 x @ wire_f32 y @ wire_f32 z), io_now = now, io_log = Written \<rparr>"

definition led_game_response ::
  "byte list \<Rightarrow> u16 \<Rightarrow> u16 \<Rightarrow> u16 \<Rightarrow> u16 \<Rightarrow> u16 \<Rightarrow> u16 \<Rightarrow> string \<Rightarrow> resp_io" where
  "led_game_response r a b c d e f now =
     \<lparr> io_type = Recv [struct_pack_B3s REQ_START_LED_GAME [0x01, 0x02, 0x03] ! 0],
       io_reserved = Recv r,
       io_payload = Recv (wire_u16 a @ wire_u16 b @ wire_u16 c @ wire_u16 d @ wire_u16 e @ wire_u16 f),
       io_now = now, io_log = Written \<rparr>"

text \<open>The server once \<^verbatim>\<open>accept\<close> has returned a client.\<close>

definition connected_server :: server where
  "connected_server = IMU_Server_init\<lparr>client_socket := True\<rparr>"

text \<open>The three channel caches, each as the triple that \<^verbatim>\<open>start\<close> appends.\<close>

definition accel_cache :: "server \<Rightarrow> f32 \<times> f32 \<times> f32" where
  "accel_cache s = (last_accel_x s, last_accel_y s, last_accel_z s)"

definition gyro_cache :: "server \<Rightarrow> f32 \<times> f32 \<times> f32" where
  "gyro_cache s = (last_gyro_x s, last_gyro_y s, last_gyro_z s)"

definition mag_cache :: "server \<Rightarrow> f32 \<times> f32 \<times> f32" where
  "mag_cache s = (last_mag_x s, last_mag_y s, last_mag_z s)"

text \<open>
  The kind under which a response is decoded, if it is decoded at all: there is a kind
  byte, no read raises, and the payload read delivers 12 bytes.
\<close>

definition decoded_kind :: "resp_io \<Rightarrow> byte option" where
  "decoded_kind io =
     (case io_type io of
        Recv (k # ks) \<Rightarrow>
          (case io_reserved io of
             Recv r \<Rightarrow>
               (case io_payload io of
                  Recv p \<Rightarrow> if 12 \<le> length p then Some k else None
                | RecvRaises \<Rightarrow> None)
           | RecvRaises \<Rightarrow> None)
      | _ \<Rightarrow> None)"

text \<open>A receive in which some read raises before the response is dispatched.\<close>

definition recv_raises :: "resp_io \<Rightarrow> bool" where
  "recv_raises io =
     (case io_type io of
        RecvRaises \<Rightarrow> True
      | Recv [] \<Rightarrow> False
      | Recv (k # ks) \<Rightarrow>
          (case io_reserved io of
             RecvRaises \<Rightarrow> True
           | Recv r \<Rightarrow> io_payload io = RecvRaises))"

text \<open>A short read: no kind byte at all, or a payload of fewer than 12 bytes.\<close>

definition short_read :: "resp_io \<Rightarrow> bool" where
  "short_read io =
     (case io_type io of
        RecvRaises \<Rightarrow> False
      | Recv [] \<Rightarrow> True
      | Recv (k # ks) \<Rightarrow>
          (case io_reserved io of
             RecvRaises \<Rightarrow> False
           | Recv r \<Rightarrow> (case io_payload io of RecvRaises \<Rightarrow> False | Recv p \<Rightarrow> length p < 12)))"

definition short_payload_io :: resp_io where
  "short_payload_io =
     \<lparr> io_type = Recv [0x51], io_reserved = Recv [0, 0, 0],
       io_payload = Recv [0, 0, 0x80, 0x3F, 0], io_now = ''t'', io_log = Written \<rparr>"

definition recv_error_io :: resp_io where
  "recv_error_io =
     \<lparr> io_type = Recv [0x51], io_reserved = Recv [0, 0, 0],
       io_payload = RecvRaises, io_now = ''t'', io_log = Written \<rparr>"

definition log_failure_io :: resp_io where
  "log_failure_io =
     (sensor_response REQ_READ_ACCELERATION [0, 0, 0] 0x3F800000 0 0x411CCCCD ''t'')
       \<lparr>io_log := WriteRaises 40\<rparr>"

text \<open>No response of the sensor part of a cycle is decoded under the kind \<open>k\<close>.\<close>

definition no_decode :: "byte \<Rightarrow> cycle_io \<Rightarrow> bool" where
  "no_decode k io =
     (decoded_kind (acc_resp io) \<noteq> Some k \<and> decoded_kind (gyro_resp io) \<noteq> Some k \<and>
      decoded_kind (mag_resp io) \<noteq> Some k)"

text \<open>Every cycle environment of a world, those of the nested calls included.\<close>

fun world_ios :: "world \<Rightarrow> cycle_io list"
  and ticks_ios :: "tick list \<Rightarrow> cycle_io list"
where
  "world_ios (World start_time ticks) = ticks_ios ticks"
| "ticks_ios [] = []"
| "ticks_ios (Tick now reconnect io # ticks) =
     (case reconnect of None \<Rightarrow> [] | Some w \<Rightarrow> world_ios w) @ io # ticks_ios ticks"

text \<open>Every list of the dataset that \<^verbatim>\<open>start\<close> appends to has length \<open>n\<close>.\<close>

definition aligned :: "'a dataset \<Rightarrow> nat \<Rightarrow> bool" where
  "aligned d n =
     (length (acc_x d) = n \<and> length (acc_y d) = n \<and> length (acc_z d) = n \<and>
      length (gyro_x d) = n \<and> length (gyro_y d) = n \<and> length (gyro_z d) = n \<and>
      length (mag_x d) = n \<and> length (mag_y d) = n \<and> length (mag_z d) = n \<and>
      length (timestamps d) = n)"




text \<open>
  Sample cycles: a device that answers every request as the wire contract says
  (acceleration (1.0, 0.0, 9.8) and so on), and the same cycle with the first send
  raising.
\<close>

definition good_io :: "real \<Rightarrow> cycle_io" where
  "good_io clock =
     \<lparr> acc_send = Sent,
       acc_resp = sensor_response REQ_READ_ACCELERATION [0, 0, 0] 0x3F800000 0 0x411CCCCD ''t'',
       gyro_send = Sent,
       gyro_resp = sensor_response REQ_READ_GYROSCOPE [0, 0, 0] 0 0 0 ''t'',
       mag_send = Sent,
       mag_resp = sensor_response REQ_READ_MAGNETOMETER [0, 0, 0] 0x41200000 0x41200000 0x41200000 ''t'',
       stamp_clock = clock,
       led_send = Sent,
       led_resp = led_game_response [0, 0, 0] 3 2 4 4 5 0 ''t'' \<rparr>"

definition dropped_io :: "real \<Rightarrow> cycle_io" where
  "dropped_io clock = (good_io clock)\<lparr>acc_send := SendRaises\<rparr>"

text \<open>
  A session in which the first cycle loses the connection: the second iteration calls
  \<^verbatim>\<open>start\<close> again, which accepts a client at clock 6 and polls once. Every clock
  reading is at least the one before it.
\<close>

definition reconnect_world :: world where
  "reconnect_world =
     World 0 [Tick 1 None (dropped_io 5),
              Tick 6 (Some (World 6 [Tick (61 / 10) None (good_io (61 / 10))])) (good_io 40)]"


text \<open>Every list of \<open>d\<close> is an initial segment of the same list of \<open>d'\<close>: nothing that
  was stored has been removed or changed.\<close>

definition extends :: "'a dataset \<Rightarrow> 'a dataset \<Rightarrow> bool" where
  "extends d d' =
     (take (length (acc_x d)) (acc_x d') = acc_x d \<and>
      take (length (acc_y d)) (acc_y d') = acc_y d \<and>
      take (length (acc_z d)) (acc_z d') = acc_z d \<and>
      take (length (gyro_x d)) (gyro_x d') = gyro_x d \<and>
      take (length (gyro_y d)) (gyro_y d') = gyro_y d \<and>
      take (length (gyro_z d)) (gyro_z d') = gyro_z d \<and>
      take (length (mag_x d)) (mag_x d') = mag_x d \<and>
      take (length (mag_y d)) (mag_y d') = mag_y d \<and>
      take (length (mag_z d)) (mag_z d') = mag_z d \<and>
      take (length (timestamps d)) (timestamps d') = timestamps d)"




text \<open>
  A receive that decodes a response under the kind \<open>k\<close>: the socket is open when it is
  called and the response it reads carries the kind byte \<open>k\<close> with a full payload.
\<close>

definition decodes :: "byte \<Rightarrow> server \<Rightarrow> resp_io \<Rightarrow> bool" where
  "decodes k s r = (client_socket s \<and> decoded_kind r = Some k)"

text \<open>
  Some receive of the sensor part of a cycle that begins in the state \<open>s\<close> decodes a
  response under the kind \<open>k\<close>, whichever request that response follows.
\<close>

definition sensor_decodes :: "byte \<Rightarrow> cycle_io \<Rightarrow> server \<Rightarrow> bool" where
  "sensor_decodes k io s =
     (let s1 = send_request s REQ_READ_ACCELERATION (acc_send io);
          s2 = receive_response s1 (acc_resp io);
          s3 = send_request s2 REQ_READ_GYROSCOPE (gyro_send io);
          s4 = receive_response s3 (gyro_resp io);
          s5 = send_request s4 REQ_READ_MAGNETOMETER (mag_send io)
      in decodes k s1 (acc_resp io) \<or> decodes k s3 (gyro_resp io) \<or> decodes k s5 (mag_resp io))"








section \<open>Properties of the Frame Codec\<close>

lemma le32_wire:
  "le32 (ucast w) (ucast (drop_bit 8 w)) (ucast (drop_bit 16 w)) (ucast (drop_bit 24 w)) = w"
  unfolding le32_def
proof (rule bit_word_eqI)
  fix n assume "n < LENGTH(32)"
  then have n: "n < 32" by simp
  consider "n < 8" | "8 \<le> n" "n < 16" | "16 \<le> n" "n < 24" | "24 \<le> n"
    by linarith
  then show "bit (ucast (ucast w :: byte) OR push_bit 8 (ucast (ucast (drop_bit 8 w) :: byte)) OR
        push_bit 16 (ucast (ucast (drop_bit 16 w) :: byte)) OR
        push_bit 24 (ucast (ucast (drop_bit 24 w) :: byte)) :: 32 word) n = bit w n"
    using n by cases (auto simp: bit_simps)
qed

lemma le16_wire: "le16 (ucast w) (ucast (drop_bit 8 w)) = w"
  unfolding le16_def
proof (rule bit_word_eqI)
  fix n assume "n < LENGTH(16)"
  then have n: "n < 16" by simp
  consider "n < 8" | "8 \<le> n"
    by linarith
  then show "bit (ucast (ucast w :: byte) OR push_bit 8 (ucast (ucast (drop_bit 8 w) :: byte)) :: 16 word) n
      = bit w n"
    using n by cases (auto simp: bit_simps)
qed

lemma wire_le32: "wire_f32 (le32 b0 b1 b2 b3) = [b0, b1, b2, b3]"
  unfolding le32_def wire_f32_def
  apply simp
  apply (intro conjI bit_word_eqI)
     apply (auto simp: bit_simps dest: bit_imp_le_length)
  done

lemma or_exp_fixed:
  fixes w :: "'a::len word"
  assumes "k < LENGTH('a)"
  shows "(w OR 2 ^ k = w) = bit w k"
proof
  assume "w OR 2 ^ k = w"
  then have "bit (w OR 2 ^ k) k = bit w k"
    by simp
  then show "bit w k"
    using assms by (simp add: bit_simps)
next
  assume b: "bit w k"
  show "w OR 2 ^ k = w"
    by (rule bit_word_eqI) (use b in \<open>auto simp: bit_simps\<close>)
qed

lemma quiet_bit:
  fixes w :: "32 word"
  shows "(w AND 0x00400000 = 0) = (\<not> bit w 22)" and "(w OR 0x00400000 = w) = bit w 22"
proof -
  have m: "(0x00400000 :: 32 word) = 2 ^ 22"
    by simp
  show "(w AND 0x00400000 = 0) = (\<not> bit w 22)"
    unfolding m by (rule and_exp_eq_0_iff_not_bit)
  show "(w OR 0x00400000 = w) = bit w 22"
    unfolding m by (rule or_exp_fixed) simp
qed

lemma py_float_fixed: "(py_float w = w) = (\<not> is_snan32 w)"
  by (auto simp: py_float_def is_snan32_def quiet_bit)

lemma py_float_not_snan: "\<not> is_snan32 (py_float w)"
proof (cases "is_nan32 w")
  case False
  then show ?thesis by (simp add: py_float_def is_snan32_def)
next
  case True
  have "bit (w OR 0x00400000) 22"
    by (simp add: bit_simps)
  then show ?thesis
    using True by (simp add: py_float_def is_snan32_def quiet_bit)
qed

lemma unpack_fff_wire:
  "struct_unpack_fff (wire_f32 x @ wire_f32 y @ wire_f32 z) = Some (py_float x, py_float y, py_float z)"
proof -
  have "struct_unpack_fff (wire_f32 x @ wire_f32 y @ wire_f32 z) =
     Some (py_float (le32 (ucast x) (ucast (drop_bit 8 x)) (ucast (drop_bit 16 x)) (ucast (drop_bit 24 x))),
           py_float (le32 (ucast y) (ucast (drop_bit 8 y)) (ucast (drop_bit 16 y)) (ucast (drop_bit 24 y))),
           py_float (le32 (ucast z) (ucast (drop_bit 8 z)) (ucast (drop_bit 16 z)) (ucast (drop_bit 24 z))))"
    by (simp add: struct_unpack_fff_def wire_f32_def)
  then show ?thesis by (simp only: le32_wire)
qed

lemma unpack_6H_wire:
  "struct_unpack_6H (wire_u16 a @ wire_u16 b @ wire_u16 c @ wire_u16 d @ wire_u16 e @ wire_u16 f)
     = Some [a, b, c, d, e, f]"
proof -
  have "struct_unpack_6H (wire_u16 a @ wire_u16 b @ wire_u16 c @ wire_u16 d @ wire_u16 e @ wire_u16 f)
     = Some [le16 (ucast a) (ucast (drop_bit 8 a)), le16 (ucast b) (ucast (drop_bit 8 b)),
             le16 (ucast c) (ucast (drop_bit 8 c)), le16 (ucast d) (ucast (drop_bit 8 d)),
             le16 (ucast e) (ucast (drop_bit 8 e)), le16 (ucast f) (ucast (drop_bit 8 f))]"
    by (simp add: struct_unpack_6H_def wire_u16_def)
  then show ?thesis by (simp only: le16_wire)
qed

lemma length_wire_f32: "length (wire_f32 w) = 4"
  by (simp add: wire_f32_def)

lemma length_wire_u16: "length (wire_u16 w) = 2"
  by (simp add: wire_u16_def)

lemma list12:
  assumes "length p = 12"
  shows "p = [p ! 0, p ! 1, p ! 2, p ! 3, p ! 4, p ! 5, p ! 6, p ! 7, p ! 8, p ! 9, p ! 10, p ! 11]"
proof (rule nth_equalityI)
  show "length p =
    length [p ! 0, p ! 1, p ! 2, p ! 3, p ! 4, p ! 5, p ! 6, p ! 7, p ! 8, p ! 9, p ! 10, p ! 11]"
    using assms by simp
next
  fix i assume "i < length p"
  then have "i < 12" using assms by simp
  then have "i = 0 \<or> i = 1 \<or> i = 2 \<or> i = 3 \<or> i = 4 \<or> i = 5 \<or> i = 6 \<or> i = 7
    \<or> i = 8 \<or> i = 9 \<or> i = 10 \<or> i = 11"
    by arith
  then show "p ! i =
    [p ! 0, p ! 1, p ! 2, p ! 3, p ! 4, p ! 5, p ! 6, p ! 7, p ! 8, p ! 9, p ! 10, p ! 11] ! i"
    by (elim disjE) simp_all
qed

lemma payload_is_encoding:
  assumes "length p = 12"
  shows "\<exists>x y z. p = wire_f32 x @ wire_f32 y @ wire_f32 z \<and>
                 struct_unpack_fff p = Some (py_float x, py_float y, py_float z)"
proof -
  let ?x = "le32 (p ! 0) (p ! 1) (p ! 2) (p ! 3)"
  let ?y = "le32 (p ! 4) (p ! 5) (p ! 6) (p ! 7)"
  let ?z = "le32 (p ! 8) (p ! 9) (p ! 10) (p ! 11)"
  have "wire_f32 ?x @ wire_f32 ?y @ wire_f32 ?z =
        [p ! 0, p ! 1, p ! 2, p ! 3, p ! 4, p ! 5, p ! 6, p ! 7, p ! 8, p ! 9, p ! 10, p ! 11]"
    by (simp add: wire_le32)
  with list12 [OF assms] have "p = wire_f32 ?x @ wire_f32 ?y @ wire_f32 ?z"
    by simp
  moreover have "struct_unpack_fff p = Some (py_float ?x, py_float ?y, py_float ?z)"
    by (simp add: struct_unpack_fff_def assms)
  ultimately show ?thesis by blast
qed

lemma recv_acceleration:
  assumes "client_socket s"
  shows "receive_response s (sensor_response REQ_READ_ACCELERATION r x y z now) =
         s\<lparr>last_accel_x := py_float x, last_accel_y := py_float y, last_accel_z := py_float z,
           log_file := log_file s @
             [Line (LogEntry now ''acceleration'' (XYZ (py_float x) (py_float y) (py_float z)))]\<rparr>"
  using assms
  by (simp add: receive_response_def sensor_response_def sock_recv_def struct_pack_B3s_def
      RESPONSE_PAYLOAD_SIZE_def unpack_fff_wire processAcceleration_def log_data_def caught_def
      length_wire_f32 REQ_READ_ACCELERATION_def)

lemma recv_gyroscope:
  assumes "client_socket s"
  shows "receive_response s (sensor_response REQ_READ_GYROSCOPE r x y z now) =
         s\<lparr>last_gyro_x := py_float x, last_gyro_y := py_float y, last_gyro_z := py_float z,
           log_file := log_file s @
             [Line (LogEntry now ''gyroscope'' (XYZ (py_float x) (py_float y) (py_float z)))]\<rparr>"
  using assms
  by (simp add: receive_response_def sensor_response_def sock_recv_def struct_pack_B3s_def
      RESPONSE_PAYLOAD_SIZE_def unpack_fff_wire processGyroscope_def log_data_def caught_def
      length_wire_f32 REQ_READ_ACCELERATION_def REQ_READ_GYROSCOPE_def)

lemma recv_magnetometer:
  assumes "client_socket s"
  shows "receive_response s (sensor_response REQ_READ_MAGNETOMETER r x y z now) =
         s\<lparr>last_mag_x := py_float x, last_mag_y := py_float y, last_mag_z := py_float z,
           log_file := log_file s @
             [Line (LogEntry now ''magnetometer'' (XYZ (py_float x) (py_float y) (py_float z)))]\<rparr>"
  using assms
  by (simp add: receive_response_def sensor_response_def sock_recv_def struct_pack_B3s_def
      RESPONSE_PAYLOAD_SIZE_def unpack_fff_wire processMagnetometer_def log_data_def caught_def
      length_wire_f32 REQ_READ_ACCELERATION_def REQ_READ_GYROSCOPE_def REQ_READ_MAGNETOMETER_def)

lemma recv_led_game:
  assumes "client_socket s"
  shows "receive_response s (led_game_response r a b c d e f now) =
         s\<lparr>log_file := log_file s @ [Line (LogEntry now ''led_game'' (LedGame a b c d e f))]\<rparr>"
  using assms
  by (simp add: receive_response_def led_game_response_def sock_recv_def struct_pack_B3s_def
      RESPONSE_PAYLOAD_SIZE_def unpack_6H_wire processLEDGame_def log_data_def caught_def
      length_wire_u16 REQ_READ_ACCELERATION_def REQ_READ_GYROSCOPE_def REQ_READ_MAGNETOMETER_def
      REQ_START_LED_GAME_def)

text \<open>
  Claim C3, as the code has it. On an open connection, the response to the request of
  each kind, encoded by the device as the wire contract says, is decoded to the values
  that were encoded, with one exception: a float field that is a signalling NaN is
  stored as the quiet NaN of the same sign and payload. Every other 32-bit pattern
  reaches the channel cache and the log as it was sent, and the six 16-bit integers of a
  game response reach the log as they were sent. Every 12-byte payload is the
  little-endian encoding of three patterns and decodes to these patterns, quieted. The
  request frame is the kind byte followed by the bytes 1, 2, 3.
\<close>

theorem codec_round_trip:
  assumes "client_socket s"
  shows "receive_response s (sensor_response REQ_READ_ACCELERATION r x y z now) =
           s\<lparr>last_accel_x := py_float x, last_accel_y := py_float y, last_accel_z := py_float z,
             log_file := log_file s @
               [Line (LogEntry now ''acceleration'' (XYZ (py_float x) (py_float y) (py_float z)))]\<rparr> \<and>
         receive_response s (sensor_response REQ_READ_GYROSCOPE r x y z now) =
           s\<lparr>last_gyro_x := py_float x, last_gyro_y := py_float y, last_gyro_z := py_float z,
             log_file := log_file s @
               [Line (LogEntry now ''gyroscope'' (XYZ (py_float x) (py_float y) (py_float z)))]\<rparr> \<and>
         receive_response s (sensor_response REQ_READ_MAGNETOMETER r x y z now) =
           s\<lparr>last_mag_x := py_float x, last_mag_y := py_float y, last_mag_z := py_float z,
             log_file := log_file s @
               [Line (LogEntry now ''magnetometer'' (XYZ (py_float x) (py_float y) (py_float z)))]\<rparr> \<and>
         receive_response s (led_game_response r a b c d e f now) =
           s\<lparr>log_file := log_file s @ [Line (LogEntry now ''led_game'' (LedGame a b c d e f))]\<rparr> \<and>
         (py_float x = x) = (\<not> is_snan32 x) \<and>
         struct_unpack_fff (wire_f32 x @ wire_f32 y @ wire_f32 z)
           = Some (py_float x, py_float y, py_float z) \<and>
         struct_unpack_6H (wire_u16 a @ wire_u16 b @ wire_u16 c @ wire_u16 d @ wire_u16 e @ wire_u16 f)
           = Some [a, b, c, d, e, f] \<and>
         (length p = 12 \<longrightarrow>
            (\<exists>x' y' z'. p = wire_f32 x' @ wire_f32 y' @ wire_f32 z' \<and>
                         struct_unpack_fff p = Some (py_float x', py_float y', py_float z'))) \<and>
         wire (send_request s k Sent) = wire s @ [[k, 0x01, 0x02, 0x03]]"
proof -
  have w: "wire (send_request s k Sent) = wire s @ [[k, 0x01, 0x02, 0x03]]"
    using assms by (simp add: send_request_def struct_pack_B3s_def)
  have p: "length p = 12 \<longrightarrow>
      (\<exists>x' y' z'. p = wire_f32 x' @ wire_f32 y' @ wire_f32 z' \<and>
                   struct_unpack_fff p = Some (py_float x', py_float y', py_float z'))"
    using payload_is_encoding [of p] by blast
  show ?thesis
    by (intro conjI recv_acceleration recv_gyroscope recv_magnetometer recv_led_game
        unpack_fff_wire unpack_6H_wire py_float_fixed w p assms)
qed

theorem codec_round_trip_witness:
  "client_socket connected_server \<and> \<not> is_snan32 0x411CCCCD \<and>
   last_accel_z (receive_response connected_server
      (sensor_response REQ_READ_ACCELERATION [0, 0, 0] 0x3F800000 0 0x411CCCCD ''t'')) = 0x411CCCCD \<and>
   io_payload (sensor_response REQ_READ_ACCELERATION [0, 0, 0] 0x3F800000 0 0x411CCCCD ''t'') =
      Recv [0, 0, 0x80, 0x3F, 0, 0, 0, 0, 0xCD, 0xCC, 0x1C, 0x41] \<and>
   struct_unpack_fff [0, 0, 0x80, 0x3F, 0, 0, 0, 0, 0xCD, 0xCC, 0x1C, 0x41] =
      Some (0x3F800000, 0, 0x411CCCCD) \<and>
   log_file (receive_response connected_server (led_game_response [0, 0, 0] 3 2 4 4 5 0 ''t'')) =
      [Line (LogEntry ''t'' ''led_game'' (LedGame 3 2 4 4 5 0))]"
proof -
  have c: "client_socket connected_server"
    by (simp add: connected_server_def)
  have n: "\<not> is_snan32 0x3F800000" "\<not> is_snan32 0" "\<not> is_snan32 0x411CCCCD"
    by (simp_all add: is_snan32_def is_nan32_def)
  have pl: "io_payload (sensor_response REQ_READ_ACCELERATION [0, 0, 0] 0x3F800000 0 0x411CCCCD ''t'') =
      Recv [0, 0, 0x80, 0x3F, 0, 0, 0, 0, 0xCD, 0xCC, 0x1C, 0x41]"
    by (simp add: sensor_response_def wire_f32_def drop_bit_eq_div)
  have ws: "wire_f32 0x3F800000 @ wire_f32 0 @ wire_f32 0x411CCCCD =
      [0, 0, 0x80, 0x3F, 0, 0, 0, 0, 0xCD, 0xCC, 0x1C, 0x41]"
    by (simp add: wire_f32_def drop_bit_eq_div)
  have lg: "log_file connected_server = []"
    by (simp add: connected_server_def IMU_Server_init_def)
  note i1 = codec_round_trip [OF c, of "[0, 0, 0]" "0x3F800000" 0 "0x411CCCCD" "''t''" 3 2 4 4 5 0]
  note i2 = codec_round_trip [OF c, of "[0, 0, 0]" 0 0 "0x3F800000" "''t''" 3 2 4 4 5 0]
  note i3 = codec_round_trip [OF c, of "[0, 0, 0]" "0x411CCCCD" 0 0 "''t''" 3 2 4 4 5 0]
  have f: "py_float 0x3F800000 = 0x3F800000" "py_float 0 = 0" "py_float 0x411CCCCD = 0x411CCCCD"
    using i1 i2 i3 n by blast+
  from i1 show ?thesis using c n pl ws lg f by simp
qed

text \<open>
  The claim as the specification states it fails: a response whose first float field is
  the signalling NaN 0x7F800001 is stored as the quiet NaN 0x7FC00001, the value that
  the payload of that quiet NaN gives as well.
\<close>

theorem signalling_nan_quieted_counterexample:
  "wire_f32 0x7F800001 = [0x01, 0x00, 0x80, 0x7F] \<and>
   struct_unpack_fff [0x01, 0x00, 0x80, 0x7F, 0, 0, 0, 0, 0, 0, 0, 0] = Some (0x7FC00001, 0, 0) \<and>
   struct_unpack_fff [0x01, 0x00, 0xC0, 0x7F, 0, 0, 0, 0, 0, 0, 0, 0] = Some (0x7FC00001, 0, 0) \<and>
   last_accel_x (receive_response connected_server
      (sensor_response REQ_READ_ACCELERATION [0, 0, 0] 0x7F800001 0 0 ''t'')) = 0x7FC00001 \<and>
   (0x7FC00001 :: 32 word) \<noteq> 0x7F800001"
  by code_simp

section \<open>Properties of receiving\<close>

lemma closed_socket_idle:
  "\<not> client_socket s \<Longrightarrow> send_request s k r = s \<and> receive_response s io = s"
  by (simp add: send_request_def receive_response_def)

lemma receive_raises:
  assumes "client_socket s" and "recv_raises io"
  shows "receive_response s io = s\<lparr>client_socket := False\<rparr>"
  using assms
  by (auto simp: receive_response_def recv_raises_def sock_recv_def caught_def
      handle_disconnection_def Let_def split: recv_result.splits list.splits)

lemma receive_short:
  assumes "short_read io"
  shows "receive_response s io = s"
  using assms
  by (auto simp: receive_response_def short_read_def sock_recv_def caught_def
      RESPONSE_PAYLOAD_SIZE_def Let_def split: recv_result.splits list.splits)

text \<open>
  Claim C8, as the code has it. A receive in which a read raises closes the socket
  (\<^verbatim>\<open>client_socket\<close> becomes \<^verbatim>\<open>None\<close>), and with the socket closed every further
  send and receive does nothing. A short read (no kind byte, or a payload of fewer than
  12 bytes) is not treated as a failure: the call returns with the state unchanged, the
  socket still open.
\<close>

theorem receive_failure_handling:
  "(client_socket s \<and> recv_raises io \<longrightarrow>
      receive_response s io = s\<lparr>client_socket := False\<rparr>) \<and>
   (\<not> client_socket s \<longrightarrow> send_request s k r = s \<and> receive_response s io = s) \<and>
   (short_read io \<longrightarrow> receive_response s io = s)"
  using receive_raises [of s io] closed_socket_idle [of s k r io] receive_short [of io s]
  by blast

theorem receive_failure_handling_witness:
  "client_socket connected_server \<and> recv_raises recv_error_io \<and>
   receive_response connected_server recv_error_io = IMU_Server_init \<and>
   \<not> client_socket IMU_Server_init \<and>
   send_request IMU_Server_init REQ_READ_GYROSCOPE Sent = IMU_Server_init \<and>
   receive_response IMU_Server_init recv_error_io = IMU_Server_init \<and>
   short_read short_payload_io \<and>
   receive_response connected_server short_payload_io = connected_server"
proof -
  have a: "client_socket connected_server \<and> recv_raises recv_error_io"
    by (simp add: connected_server_def recv_raises_def recv_error_io_def)
  have b: "\<not> client_socket IMU_Server_init"
    by (simp add: IMU_Server_init_def)
  have c: "short_read short_payload_io"
    by (simp add: short_read_def short_payload_io_def)
  have d: "connected_server\<lparr>client_socket := False\<rparr> = IMU_Server_init"
    by (simp add: connected_server_def IMU_Server_init_def)
  from a b c d
    receive_failure_handling [of connected_server recv_error_io REQ_READ_GYROSCOPE Sent]
    receive_failure_handling [of IMU_Server_init recv_error_io REQ_READ_GYROSCOPE Sent]
    receive_failure_handling [of connected_server short_payload_io REQ_READ_GYROSCOPE Sent]
  show ?thesis by simp
qed

text \<open>
  The claim as the specification states it fails: after a short payload read the
  socket is still open and nothing was done about the connection.
\<close>

theorem short_read_keeps_socket_counterexample:
  "short_read short_payload_io \<and> client_socket connected_server \<and>
   client_socket (receive_response connected_server short_payload_io)"
  by (simp add: short_read_def short_payload_io_def connected_server_def IMU_Server_init_def
      receive_response_def sock_recv_def caught_def RESPONSE_PAYLOAD_SIZE_def)

lemma log_failure_acceleration:
  assumes "client_socket s"
  shows "receive_response s
           ((sensor_response REQ_READ_ACCELERATION r x y z now)\<lparr>io_log := WriteRaises n\<rparr>) =
         s\<lparr>last_accel_x := py_float x, last_accel_y := py_float y, last_accel_z := py_float z,
           log_file := log_file s @
             (if n = 0 then []
              else [Fragment (LogEntry now ''acceleration'' (XYZ (py_float x) (py_float y) (py_float z))) n]),
           client_socket := False\<rparr>"
  using assms
  by (simp add: receive_response_def sensor_response_def sock_recv_def struct_pack_B3s_def
      RESPONSE_PAYLOAD_SIZE_def unpack_fff_wire processAcceleration_def log_data_def caught_def
      length_wire_f32 REQ_READ_ACCELERATION_def handle_disconnection_def)

lemma log_failure_gyroscope:
  assumes "client_socket s"
  shows "receive_response s
           ((sensor_response REQ_READ_GYROSCOPE r x y z now)\<lparr>io_log := WriteRaises n\<rparr>) =
         s\<lparr>last_gyro_x := py_float x, last_gyro_y := py_float y, last_gyro_z := py_float z,
           log_file := log_file s @
             (if n = 0 then []
              else [Fragment (LogEntry now ''gyroscope'' (XYZ (py_float x) (py_float y) (py_float z))) n]),
           client_socket := False\<rparr>"
  using assms
  by (simp add: receive_response_def sensor_response_def sock_recv_def struct_pack_B3s_def
      RESPONSE_PAYLOAD_SIZE_def unpack_fff_wire processGyroscope_def log_data_def caught_def
      length_wire_f32 REQ_READ_ACCELERATION_def REQ_READ_GYROSCOPE_def handle_disconnection_def)

lemma log_failure_magnetometer:
  assumes "client_socket s"
  shows "receive_response s
           ((sensor_response REQ_READ_MAGNETOMETER r x y z now)\<lparr>io_log := WriteRaises n\<rparr>) =
         s\<lparr>last_mag_x := py_float x, last_mag_y := py_float y, last_mag_z := py_float z,
           log_file := log_file s @
             (if n = 0 then []
              else [Fragment (LogEntry now ''magnetometer'' (XYZ (py_float x) (py_float y) (py_float z))) n]),
           client_socket := False\<rparr>"
  using assms
  by (simp add: receive_response_def sensor_response_def sock_recv_def struct_pack_B3s_def
      RESPONSE_PAYLOAD_SIZE_def unpack_fff_wire processMagnetometer_def log_data_def caught_def
      length_wire_f32 REQ_READ_ACCELERATION_def REQ_READ_GYROSCOPE_def REQ_READ_MAGNETOMETER_def
      handle_disconnection_def)

lemma log_failure_led_game:
  assumes "client_socket s"
  shows "receive_response s ((led_game_response r a b c d e f now)\<lparr>io_log := WriteRaises n\<rparr>) =
         s\<lparr>log_file := log_file s @
             (if n = 0 then [] else [Fragment (LogEntry now ''led_game'' (LedGame a b c d e f)) n]),
           client_socket := False\<rparr>"
  using assms
  by (simp add: receive_response_def led_game_response_def sock_recv_def struct_pack_B3s_def
      RESPONSE_PAYLOAD_SIZE_def unpack_6H_wire processLEDGame_def log_data_def caught_def
      length_wire_u16 REQ_READ_ACCELERATION_def REQ_READ_GYROSCOPE_def REQ_READ_MAGNETOMETER_def
      REQ_START_LED_GAME_def handle_disconnection_def)

text \<open>
  Claim C9, as the code has it. When the log file cannot be written while a decoded
  response is processed, the exception is caught inside \<^verbatim>\<open>receive_response\<close> and
  handled as a disconnection: the call returns and the socket is closed. The channel
  cache has already taken the decoded values, and the following store step appends to
  the session as in any other cycle. The log holds what the failed write left of the
  line, if anything.
\<close>

theorem log_failure_is_disconnection:
  assumes "client_socket s"
  shows "receive_response s
           ((sensor_response REQ_READ_ACCELERATION r x y z now)\<lparr>io_log := WriteRaises n\<rparr>) =
           s\<lparr>last_accel_x := py_float x, last_accel_y := py_float y, last_accel_z := py_float z,
             log_file := log_file s @
               (if n = 0 then []
                else [Fragment (LogEntry now ''acceleration''
                                  (XYZ (py_float x) (py_float y) (py_float z))) n]),
             client_socket := False\<rparr> \<and>
         receive_response s
           ((sensor_response REQ_READ_GYROSCOPE r x y z now)\<lparr>io_log := WriteRaises n\<rparr>) =
           s\<lparr>last_gyro_x := py_float x, last_gyro_y := py_float y, last_gyro_z := py_float z,
             log_file := log_file s @
               (if n = 0 then []
                else [Fragment (LogEntry now ''gyroscope''
                                  (XYZ (py_float x) (py_float y) (py_float z))) n]),
             client_socket := False\<rparr> \<and>
         receive_response s
           ((sensor_response REQ_READ_MAGNETOMETER r x y z now)\<lparr>io_log := WriteRaises n\<rparr>) =
           s\<lparr>last_mag_x := py_float x, last_mag_y := py_float y, last_mag_z := py_float z,
             log_file := log_file s @
               (if n = 0 then []
                else [Fragment (LogEntry now ''magnetometer''
                                  (XYZ (py_float x) (py_float y) (py_float z))) n]),
             client_socket := False\<rparr> \<and>
         receive_response s ((led_game_response r a b c d e f now)\<lparr>io_log := WriteRaises n\<rparr>) =
           s\<lparr>log_file := log_file s @
               (if n = 0 then [] else [Fragment (LogEntry now ''led_game'' (LedGame a b c d e f)) n]),
             client_socket := False\<rparr> \<and>
         acc_x (full_dataset (store_data t
           (receive_response s
              ((sensor_response REQ_READ_ACCELERATION r x y z now)\<lparr>io_log := WriteRaises n\<rparr>))))
           = acc_x (full_dataset s) @ [py_float x]"
proof -
  have "acc_x (full_dataset (store_data t
      (receive_response s
         ((sensor_response REQ_READ_ACCELERATION r x y z now)\<lparr>io_log := WriteRaises n\<rparr>))))
      = acc_x (full_dataset s) @ [py_float x]"
    by (simp add: log_failure_acceleration [OF assms] store_data_def)
  then show ?thesis
    by (intro conjI log_failure_acceleration log_failure_gyroscope log_failure_magnetometer
        log_failure_led_game assms)
qed

theorem log_failure_is_disconnection_witness:
  "client_socket connected_server \<and>
   receive_response connected_server log_failure_io =
     IMU_Server_init
       \<lparr>last_accel_x := 0x3F800000, last_accel_y := 0, last_accel_z := 0x411CCCCD,
        log_file := [Fragment (LogEntry ''t'' ''acceleration'' (XYZ 0x3F800000 0 0x411CCCCD)) 40]\<rparr>"
proof -
  have c: "client_socket connected_server"
    by (simp add: connected_server_def)
  have f: "py_float 0x3F800000 = 0x3F800000" "py_float 0 = 0" "py_float 0x411CCCCD = 0x411CCCCD"
    by (simp_all add: py_float_def is_nan32_def)
  have d: "connected_server\<lparr>client_socket := False\<rparr> = IMU_Server_init"
    "log_file connected_server = []"
    by (simp_all add: connected_server_def IMU_Server_init_def)
  have "receive_response connected_server log_failure_io =
      connected_server
        \<lparr>last_accel_x := 0x3F800000, last_accel_y := 0, last_accel_z := 0x411CCCCD,
         log_file := [Fragment (LogEntry ''t'' ''acceleration'' (XYZ 0x3F800000 0 0x411CCCCD)) 40],
         client_socket := False\<rparr>"
    using log_failure_is_disconnection
      [OF c, where r = "[0, 0, 0]" and x = "0x3F800000" and y = 0 and z = "0x411CCCCD"
        and now = "''t''" and n = 40]
    by (simp add: log_failure_io_def f d(2))
  then show ?thesis using c
    by (simp add: connected_server_def IMU_Server_init_def)
qed

text \<open>
  The claim as the specification states it fails: the write failure raised by
  \<^verbatim>\<open>processAcceleration\<close> does not reach the caller of \<^verbatim>\<open>receive_response\<close>, which
  gets an ordinary return with the socket closed.
\<close>

theorem log_failure_swallowed_counterexample:
  "processAcceleration connected_server ''t'' (WriteRaises 40) 0x3F800000 0 0x411CCCCD =
     Raised OSError
       (connected_server
          \<lparr>last_accel_x := 0x3F800000, last_accel_y := 0, last_accel_z := 0x411CCCCD,
           log_file := [Fragment (LogEntry ''t'' ''acceleration'' (XYZ 0x3F800000 0 0x411CCCCD)) 40]\<rparr>) \<and>
   receive_response connected_server log_failure_io =
     IMU_Server_init
       \<lparr>last_accel_x := 0x3F800000, last_accel_y := 0, last_accel_z := 0x411CCCCD,
        log_file := [Fragment (LogEntry ''t'' ''acceleration'' (XYZ 0x3F800000 0 0x411CCCCD)) 40]\<rparr> \<and>
   \<not> client_socket (receive_response connected_server log_failure_io)"
  by code_simp

section \<open>What sending and receiving leave unchanged\<close>

lemma send_request_frame:
  "full_dataset (send_request s k r) = full_dataset s"
  "accel_cache (send_request s k r) = accel_cache s"
  "gyro_cache (send_request s k r) = gyro_cache s"
  "mag_cache (send_request s k r) = mag_cache s"
  "log_file (send_request s k r) = log_file s"
  by (simp_all add: send_request_def handle_disconnection_def accel_cache_def gyro_cache_def
      mag_cache_def split: send_result.splits)

lemma caught_frame:
  "full_dataset (caught (log_data s ok e)) = full_dataset s"
  "wire (caught (log_data s ok e)) = wire s"
  "accel_cache (caught (log_data s ok e)) = accel_cache s"
  "gyro_cache (caught (log_data s ok e)) = gyro_cache s"
  "mag_cache (caught (log_data s ok e)) = mag_cache s"
  by (simp_all add: caught_def log_data_def handle_disconnection_def accel_cache_def
      gyro_cache_def mag_cache_def split: log_result.splits)

lemma caught_simps:
  "caught (Returned s) = s"
  "caught (Raised e s) = handle_disconnection s"
  by (simp_all add: caught_def)

lemma handle_disconnection_frame:
  "full_dataset (handle_disconnection s) = full_dataset s"
  "wire (handle_disconnection s) = wire s"
  "accel_cache (handle_disconnection s) = accel_cache s"
  "gyro_cache (handle_disconnection s) = gyro_cache s"
  "mag_cache (handle_disconnection s) = mag_cache s"
  "log_file (handle_disconnection s) = log_file s"
  by (simp_all add: handle_disconnection_def accel_cache_def gyro_cache_def mag_cache_def)

lemma receive_response_dataset: "full_dataset (receive_response s io) = full_dataset s"
  by (simp add: receive_response_def Let_def processAcceleration_def processGyroscope_def
      processMagnetometer_def processLEDGame_def caught_frame caught_simps
      handle_disconnection_frame
      split: option.splits list.splits prod.splits)


lemma process_other_cache:
  "accel_cache (caught (processGyroscope s now ok x y z)) = accel_cache s"
  "accel_cache (caught (processMagnetometer s now ok x y z)) = accel_cache s"
  "accel_cache (caught (processLEDGame s now ok a b c d e f)) = accel_cache s"
  "gyro_cache (caught (processAcceleration s now ok x y z)) = gyro_cache s"
  "gyro_cache (caught (processMagnetometer s now ok x y z)) = gyro_cache s"
  "gyro_cache (caught (processLEDGame s now ok a b c d e f)) = gyro_cache s"
  "mag_cache (caught (processAcceleration s now ok x y z)) = mag_cache s"
  "mag_cache (caught (processGyroscope s now ok x y z)) = mag_cache s"
  "mag_cache (caught (processLEDGame s now ok a b c d e f)) = mag_cache s"
  by (simp_all add: processAcceleration_def processGyroscope_def processMagnetometer_def
      processLEDGame_def caught_frame accel_cache_def gyro_cache_def mag_cache_def
      caught_def log_data_def handle_disconnection_def split: log_result.splits)

lemma decoded_kind_cases:
  assumes "decoded_kind io \<noteq> Some k"
  shows "(\<exists>t ts r p. io_type io = Recv (t # ts) \<and> io_reserved io = Recv r \<and>
            io_payload io = Recv p \<and> 12 \<le> length p \<and> t \<noteq> k)
         \<or> recv_raises io \<or> short_read io"
  using assms
  by (auto simp: decoded_kind_def recv_raises_def short_read_def
      split: recv_result.splits list.splits if_splits)

lemma receive_response_accel_cache:
  assumes "decoded_kind io \<noteq> Some REQ_READ_ACCELERATION"
  shows "accel_cache (receive_response s io) = accel_cache s"
proof (cases "client_socket s")
  case False
  then show ?thesis by (simp add: receive_response_def)
next
  case True
  from decoded_kind_cases [OF assms] consider
    (other) t ts r p where "io_type io = Recv (t # ts)" "io_reserved io = Recv r"
      "io_payload io = Recv p" "12 \<le> length p" "t \<noteq> REQ_READ_ACCELERATION"
    | (raises) "recv_raises io" | (short) "short_read io"
    by blast
  then show ?thesis
  proof cases
    case other
    then show ?thesis using True
      by (simp add: receive_response_def sock_recv_def RESPONSE_PAYLOAD_SIZE_def Let_def
          process_other_cache caught_simps handle_disconnection_frame
          split: option.splits list.splits prod.splits)
  next
    case raises
    then show ?thesis using True by (simp add: receive_raises accel_cache_def)
  next
    case short
    then show ?thesis by (simp add: receive_short)
  qed
qed

lemma receive_response_gyro_cache:
  assumes "decoded_kind io \<noteq> Some REQ_READ_GYROSCOPE"
  shows "gyro_cache (receive_response s io) = gyro_cache s"
proof (cases "client_socket s")
  case False
  then show ?thesis by (simp add: receive_response_def)
next
  case True
  from decoded_kind_cases [OF assms] consider
    (other) t ts r p where "io_type io = Recv (t # ts)" "io_reserved io = Recv r"
      "io_payload io = Recv p" "12 \<le> length p" "t \<noteq> REQ_READ_GYROSCOPE"
    | (raises) "recv_raises io" | (short) "short_read io"
    by blast
  then show ?thesis
  proof cases
    case other
    then show ?thesis using True
      by (simp add: receive_response_def sock_recv_def RESPONSE_PAYLOAD_SIZE_def Let_def
          process_other_cache caught_simps handle_disconnection_frame
          split: option.splits list.splits prod.splits)
  next
    case raises
    then show ?thesis using True by (simp add: receive_raises gyro_cache_def)
  next
    case short
    then show ?thesis by (simp add: receive_short)
  qed
qed

lemma receive_response_mag_cache:
  assumes "decoded_kind io \<noteq> Some REQ_READ_MAGNETOMETER"
  shows "mag_cache (receive_response s io) = mag_cache s"
proof (cases "client_socket s")
  case False
  then show ?thesis by (simp add: receive_response_def)
next
  case True
  from decoded_kind_cases [OF assms] consider
    (other) t ts r p where "io_type io = Recv (t # ts)" "io_reserved io = Recv r"
      "io_payload io = Recv p" "12 \<le> length p" "t \<noteq> REQ_READ_MAGNETOMETER"
    | (raises) "recv_raises io" | (short) "short_read io"
    by blast
  then show ?thesis
  proof cases
    case other
    then show ?thesis using True
      by (simp add: receive_response_def sock_recv_def RESPONSE_PAYLOAD_SIZE_def Let_def
          process_other_cache caught_simps handle_disconnection_frame
          split: option.splits list.splits prod.splits)
  next
    case raises
    then show ?thesis using True by (simp add: receive_raises mag_cache_def)
  next
    case short
    then show ?thesis by (simp add: receive_short)
  qed
qed










lemma receive_response_closed_stays:
  assumes "\<not> client_socket s"
  shows "\<not> client_socket (receive_response s r)"
  using assms by (simp add: receive_response_def)

section \<open>One cycle of the Poll Scheduler\<close>

lemma collect_sensors_dataset: "full_dataset (collect_sensors io s) = full_dataset s"
  by (simp add: collect_sensors_def Let_def receive_response_dataset send_request_frame)

lemma collect_sensors_accel_cache:
  assumes "no_decode REQ_READ_ACCELERATION io"
  shows "accel_cache (collect_sensors io s) = accel_cache s"
  using assms
  by (simp add: collect_sensors_def Let_def no_decode_def receive_response_accel_cache
      send_request_frame)

lemma collect_sensors_gyro_cache:
  assumes "no_decode REQ_READ_GYROSCOPE io"
  shows "gyro_cache (collect_sensors io s) = gyro_cache s"
  using assms
  by (simp add: collect_sensors_def Let_def no_decode_def receive_response_gyro_cache
      send_request_frame)

lemma collect_sensors_mag_cache:
  assumes "no_decode REQ_READ_MAGNETOMETER io"
  shows "mag_cache (collect_sensors io s) = mag_cache s"
  using assms
  by (simp add: collect_sensors_def Let_def no_decode_def receive_response_mag_cache
      send_request_frame)

lemma collect_sensors_closed:
  assumes "\<not> client_socket s"
  shows "collect_sensors io s = s"
  using assms by (simp add: collect_sensors_def Let_def closed_socket_idle)



lemma store_data_frame:
  "client_socket (store_data e s) = client_socket s"
  "wire (store_data e s) = wire s"
  "log_file (store_data e s) = log_file s"
  "accel_cache (store_data e s) = accel_cache s"
  "gyro_cache (store_data e s) = gyro_cache s"
  "mag_cache (store_data e s) = mag_cache s"
  by (simp_all add: store_data_def accel_cache_def gyro_cache_def mag_cache_def)

lemma store_data_aligned:
  assumes "aligned (full_dataset s) n"
  shows "aligned (full_dataset (store_data e s)) (Suc n)"
  using assms by (simp add: store_data_def aligned_def)

lemma body_dataset:
  assumes "start_loop_body t0 c io s = (c', s')"
  shows "full_dataset s' = full_dataset (store_data (stamp_clock io - t0) (collect_sensors io s))"
  using assms
  by (auto simp: start_loop_body_def Let_def receive_response_dataset send_request_frame
      split: if_splits)

lemma body_counter:
  assumes "start_loop_body t0 c io s = (c', s')"
  shows "c' = (if 10 \<le> c + 1 then 0 else c + 1)"
  using assms by (auto simp: start_loop_body_def Let_def split: if_splits)

lemma body_aligned:
  assumes "start_loop_body t0 c io s = (c', s')" and "aligned (full_dataset s) n"
  shows "aligned (full_dataset s') (Suc n)"
proof -
  have "aligned (full_dataset (collect_sensors io s)) n"
    using assms(2) by (simp add: collect_sensors_dataset)
  then show ?thesis
    by (simp add: body_dataset [OF assms(1)] store_data_aligned)
qed

lemma body_appends:
  assumes "start_loop_body t0 c io s = (c', s')"
  shows "timestamps (full_dataset s') = timestamps (full_dataset s) @ [stamp_clock io - t0]"
    and "acc_x (full_dataset s') = acc_x (full_dataset s) @ [fst (accel_cache (collect_sensors io s))]"
    and "acc_y (full_dataset s') = acc_y (full_dataset s) @ [fst (snd (accel_cache (collect_sensors io s)))]"
    and "acc_z (full_dataset s') = acc_z (full_dataset s) @ [snd (snd (accel_cache (collect_sensors io s)))]"
    and "gyro_x (full_dataset s') = gyro_x (full_dataset s) @ [fst (gyro_cache (collect_sensors io s))]"
    and "gyro_y (full_dataset s') = gyro_y (full_dataset s) @ [fst (snd (gyro_cache (collect_sensors io s)))]"
    and "gyro_z (full_dataset s') = gyro_z (full_dataset s) @ [snd (snd (gyro_cache (collect_sensors io s)))]"
    and "mag_x (full_dataset s') = mag_x (full_dataset s) @ [fst (mag_cache (collect_sensors io s))]"
    and "mag_y (full_dataset s') = mag_y (full_dataset s) @ [fst (snd (mag_cache (collect_sensors io s)))]"
    and "mag_z (full_dataset s') = mag_z (full_dataset s) @ [snd (snd (mag_cache (collect_sensors io s)))]"
  by (simp_all add: body_dataset [OF assms] store_data_def collect_sensors_dataset
      accel_cache_def gyro_cache_def mag_cache_def)

lemma body_cache:
  assumes "start_loop_body t0 c io s = (c', s')"
  shows "accel_cache s' \<noteq> accel_cache s \<Longrightarrow>
           \<not> no_decode REQ_READ_ACCELERATION io \<or>
           (10 \<le> c + 1 \<and> decoded_kind (led_resp io) = Some REQ_READ_ACCELERATION)"
    and "gyro_cache s' \<noteq> gyro_cache s \<Longrightarrow>
           \<not> no_decode REQ_READ_GYROSCOPE io \<or>
           (10 \<le> c + 1 \<and> decoded_kind (led_resp io) = Some REQ_READ_GYROSCOPE)"
    and "mag_cache s' \<noteq> mag_cache s \<Longrightarrow>
           \<not> no_decode REQ_READ_MAGNETOMETER io \<or>
           (10 \<le> c + 1 \<and> decoded_kind (led_resp io) = Some REQ_READ_MAGNETOMETER)"
proof -
  let ?s6 = "collect_sensors io s"
  let ?s7 = "store_data (stamp_clock io - t0) ?s6"
  have s': "s' = (if 10 \<le> c + 1
                  then receive_response (send_request ?s7 REQ_START_LED_GAME (led_send io)) (led_resp io)
                  else ?s7)"
    using assms by (auto simp: start_loop_body_def Let_def split: if_splits)
  have "accel_cache s' = accel_cache s"
    if "no_decode REQ_READ_ACCELERATION io"
      and "10 \<le> c + 1 \<longrightarrow> decoded_kind (led_resp io) \<noteq> Some REQ_READ_ACCELERATION"
    unfolding s' using that
    by (simp add: store_data_frame collect_sensors_accel_cache receive_response_accel_cache
        send_request_frame)
  then show "accel_cache s' \<noteq> accel_cache s \<Longrightarrow>
           \<not> no_decode REQ_READ_ACCELERATION io \<or>
           (10 \<le> c + 1 \<and> decoded_kind (led_resp io) = Some REQ_READ_ACCELERATION)"
    by blast
  have "gyro_cache s' = gyro_cache s"
    if "no_decode REQ_READ_GYROSCOPE io"
      and "10 \<le> c + 1 \<longrightarrow> decoded_kind (led_resp io) \<noteq> Some REQ_READ_GYROSCOPE"
    unfolding s' using that
    by (simp add: store_data_frame collect_sensors_gyro_cache receive_response_gyro_cache
        send_request_frame)
  then show "gyro_cache s' \<noteq> gyro_cache s \<Longrightarrow>
           \<not> no_decode REQ_READ_GYROSCOPE io \<or>
           (10 \<le> c + 1 \<and> decoded_kind (led_resp io) = Some REQ_READ_GYROSCOPE)"
    by blast
  have "mag_cache s' = mag_cache s"
    if "no_decode REQ_READ_MAGNETOMETER io"
      and "10 \<le> c + 1 \<longrightarrow> decoded_kind (led_resp io) \<noteq> Some REQ_READ_MAGNETOMETER"
    unfolding s' using that
    by (simp add: store_data_frame collect_sensors_mag_cache receive_response_mag_cache
        send_request_frame)
  then show "mag_cache s' \<noteq> mag_cache s \<Longrightarrow>
           \<not> no_decode REQ_READ_MAGNETOMETER io \<or>
           (10 \<le> c + 1 \<and> decoded_kind (led_resp io) = Some REQ_READ_MAGNETOMETER)"
    by blast
qed




lemma sensor_decodes_closed:
  assumes "\<not> client_socket s"
  shows "\<not> sensor_decodes k io s"
  using assms by (simp add: sensor_decodes_def decodes_def Let_def closed_socket_idle)



section \<open>Whole runs of the Poll Scheduler\<close>

text \<open>
  A relation between states that contains each loop body and each update of the
  socket, and is reflexive and transitive, relates the state before a run of
  \<^verbatim>\<open>start\<close> to the state after it. The induction follows the calls of \<^verbatim>\<open>start\<close> and of
  its loop, the nested ones included.
\<close>

lemma run_rel:
  fixes R :: "nat \<times> server \<Rightarrow> nat \<times> server \<Rightarrow> bool"
  assumes refl: "\<And>x. R x x"
    and trans: "\<And>x y z. R x y \<Longrightarrow> R y z \<Longrightarrow> R x z"
    and sock: "\<And>c s b. R (c, s) (c, s\<lparr>client_socket := b\<rparr>)"
    and body: "\<And>t0 c io s. io \<in> I \<Longrightarrow> R (c, s) (start_loop_body t0 c io s)"
    and call: "\<And>c s c1 s1. R (0, s) (c1, s1) \<Longrightarrow> R (c, s) (c, s1)"
  shows "start w s = Some s' \<Longrightarrow> set (world_ios w) \<subseteq> I \<Longrightarrow> R (k, s) (k, s')"
    and "start_loop t0 c ticks s = Some (c', s') \<Longrightarrow> set (ticks_ios ticks) \<subseteq> I \<Longrightarrow>
         R (c, s) (c', s')"
proof (induction w s and t0 c ticks s arbitrary: s' k and c' s' rule: start_start_loop.induct)
  case (1 start_time ticks s)
  from "1.prems"(1) obtain c1 s1
    where run: "start_loop start_time 0 ticks (s\<lparr>client_socket := True\<rparr>) = Some (c1, s1)"
      and s': "s' = (if client_socket s1 then s1\<lparr>client_socket := False\<rparr> else s1)"
    by (auto split: option.splits)
  have "R (0, s\<lparr>client_socket := True\<rparr>) (c1, s1)"
    using "1.IH" [OF run] "1.prems"(2) by simp
  then have "R (0, s) (c1, s1)"
    using sock trans by blast
  moreover have "R (c1, s1) (c1, s')"
    unfolding s' using sock refl by simp
  ultimately have "R (0, s) (c1, s')"
    using trans by blast
  then show ?case
    by (rule call)
next
  case (2 start_time c s)
  then show ?case using refl by simp
next
  case (3 start_time c now reconnect io ticks s)
  show ?case
  proof (cases "now - start_time < 30")
    case False
    with "3.prems"(1) show ?thesis using refl by simp
  next
    case True
    let ?mid = "if \<not> client_socket s
                then case reconnect of None \<Rightarrow> None | Some w \<Rightarrow> start w s
                else Some s"
    from "3.prems"(1) True obtain s1 where mid: "?mid = Some s1"
      by (cases ?mid) auto
    obtain c2 s2 where b: "(c2, s2) = start_loop_body start_time c io s1"
      by (metis surj_pair)
    from "3.prems"(1) True mid b have rest: "start_loop start_time c2 ticks s2 = Some (c', s')"
      by (auto split: prod.splits)
    have io: "io \<in> I" and sub: "set (ticks_ios ticks) \<subseteq> I"
      using "3.prems"(2) by auto
    have "R (c, s) (c, s1)"
    proof (cases "client_socket s")
      case True
      with mid show ?thesis using refl by simp
    next
      case False
      with mid obtain w where w: "reconnect = Some w" "start w s = Some s1"
        by (auto split: option.splits)
      have "set (world_ios w) \<subseteq> I"
        using "3.prems"(2) w(1) by auto
      with "3.IH"(1) [OF True False w(1) w(2)] show ?thesis .
    qed
    moreover have "R (c, s1) (c2, s2)"
      using body [OF io, of c s1 start_time] b by simp
    moreover have "R (c2, s2) (c', s')"
      using "3.IH"(2) [OF True mid b rest sub] .
    ultimately show ?thesis
      using trans by blast
  qed
qed

lemma start_closes_socket:
  assumes "start w s = Some s'"
  shows "\<not> client_socket s'"
  using assms by (cases w) (auto split: option.splits if_splits)

lemma run_aligned:
  assumes "start w s = Some s'"
    and "aligned (full_dataset s) (length (timestamps (full_dataset s)))"
  shows "aligned (full_dataset s') (length (timestamps (full_dataset s')))"
proof -
  let ?A = "\<lambda>s. aligned (full_dataset s) (length (timestamps (full_dataset s)))"
  let ?R = "\<lambda>x y. ?A (snd x) \<longrightarrow> ?A (snd y)"
  have "?R (0 :: nat, s) (0 :: nat, s')"
  proof (rule run_rel(1) [where I = UNIV and R = ?R, OF _ _ _ _ _ assms(1)])
    show "?R (c, a) (start_loop_body t0 c io a)" for t0 c io a
    proof
      assume "?A (snd (c, a))"
      then have "aligned (full_dataset (snd (start_loop_body t0 c io a)))
              (Suc (length (timestamps (full_dataset a))))"
        using body_aligned [OF prod.collapse [symmetric]] by simp
      then show "?A (snd (start_loop_body t0 c io a))"
        by (simp add: aligned_def)
    qed
  qed simp_all
  with assms(2) show ?thesis by simp
qed

lemma extends_refl: "extends d d"
  by (simp add: extends_def)

lemma take_take_prefix:
  assumes "take (length xs) ys = xs" and "take (length ys) zs = ys"
  shows "take (length xs) zs = xs"
proof -
  have "length (take (length xs) ys) = length xs"
    using assms(1) by simp
  then have "length xs \<le> length ys"
    by simp
  then have "take (length xs) zs = take (length xs) (take (length ys) zs)"
    by (simp add: min_def)
  then show ?thesis using assms by simp
qed

lemma extends_trans:
  assumes "extends a b" and "extends b c"
  shows "extends a c"
  using assms unfolding extends_def by (blast intro: take_take_prefix)

lemma body_extends:
  assumes "start_loop_body t0 c io s = (c', s')"
  shows "extends (full_dataset s) (full_dataset s')"
  by (simp add: extends_def body_appends [OF assms])

lemma body_snd_extends:
  "extends (full_dataset s) (full_dataset (snd (start_loop_body t0 c io s)))"
  by (rule body_extends [OF prod.collapse [symmetric]])

lemma run_extends:
  assumes "start w s = Some s'"
  shows "extends (full_dataset s) (full_dataset s')"
proof -
  let ?R = "\<lambda>(x :: nat \<times> server) (y :: nat \<times> server). extends (full_dataset (snd x)) (full_dataset (snd y))"
  have "?R (0, s) (0, s')"
  proof (rule run_rel(1) [where I = UNIV and R = ?R, OF _ _ _ _ _ assms])
    show "?R (c, a) (start_loop_body t0 c io a)" for t0 c io a
      by (simp add: body_snd_extends)
    show "?R x z" if "?R x y" "?R y z" for x y z
      using that by (rule extends_trans)
  qed (simp_all add: extends_refl)
  then show ?thesis by simp
qed


section \<open>The channel caches\<close>







section \<open>Session invariants\<close>

lemma loop_aligned:
  assumes "start_loop t0 c ticks s = Some (c', s')"
    and "aligned (full_dataset s) (length (timestamps (full_dataset s)))"
  shows "aligned (full_dataset s') (length (timestamps (full_dataset s')))"
proof -
  let ?A = "\<lambda>s. aligned (full_dataset s) (length (timestamps (full_dataset s)))"
  let ?R = "\<lambda>(x :: nat \<times> server) (y :: nat \<times> server). ?A (snd x) \<longrightarrow> ?A (snd y)"
  have "?R (c, s) (c', s')"
  proof (rule run_rel(2) [where I = UNIV and R = ?R, OF _ _ _ _ _ assms(1)])
    show "?R (c, a) (start_loop_body t0 c io a)" for t0 c io a
    proof
      assume "?A (snd (c, a))"
      then have "aligned (full_dataset (snd (start_loop_body t0 c io a)))
              (Suc (length (timestamps (full_dataset a))))"
        using body_aligned [OF prod.collapse [symmetric]] by simp
      then show "?A (snd (start_loop_body t0 c io a))"
        by (simp add: aligned_def)
    qed
  qed simp_all
  with assms(2) show ?thesis by simp
qed







section \<open>The auxiliary-game trigger\<close>


lemma body_unfold:
  assumes "start_loop_body t0 c io s = (c', s')"
  shows "c' = (if 10 \<le> c + 1 then 0 else c + 1)"
    and "s' = (if 10 \<le> c + 1
               then receive_response
                      (send_request (store_data (stamp_clock io - t0) (collect_sensors io s))
                         REQ_START_LED_GAME (led_send io)) (led_resp io)
               else store_data (stamp_clock io - t0) (collect_sensors io s))"
  using assms by (auto simp: start_loop_body_def Let_def split: if_splits)













section \<open>Connection loss and reconnection\<close>

lemma body_closed:
  assumes "\<not> client_socket s"
  shows "start_loop_body t0 c io s =
         ((if 10 \<le> c + 1 then 0 else c + 1), store_data (stamp_clock io - t0) s)"
  using assms
  by (simp add: start_loop_body_def Let_def collect_sensors_closed closed_socket_idle
      store_data_frame)

lemma loop_reconnect:
  assumes "\<not> client_socket s" and "now - t0 < 30"
  shows "start_loop t0 c (Tick now rc io # ticks) s =
         (case rc of
            None \<Rightarrow> None
          | Some w \<Rightarrow>
              (case start w s of
                 None \<Rightarrow> None
               | Some s1 \<Rightarrow>
                   start_loop t0 (if 10 \<le> c + 1 then 0 else c + 1) ticks
                     (store_data (stamp_clock io - t0) s1)))"
proof (cases rc)
  case None
  with assms show ?thesis by simp
next
  case (Some w)
  show ?thesis
  proof (cases "start w s")
    case None
    with Some assms show ?thesis by simp
  next
    case (Some s1)
    then have "\<not> client_socket s1"
      by (rule start_closes_socket)
    then have "start_loop_body t0 c io s1 =
        ((if 10 \<le> c + 1 then 0 else c + 1), store_data (stamp_clock io - t0) s1)"
      by (rule body_closed)
    with Some \<open>rc = Some w\<close> assms show ?thesis by simp
  qed
qed

lemma send_raises_closes:
  assumes "client_socket s"
  shows "\<not> client_socket (send_request s k SendRaises)"
  using assms by (simp add: send_request_def handle_disconnection_def)

text \<open>
  Claim C7, as the code has it. A send or receive that raises closes the socket. The
  cycle in which this happens is not retried: every pass through the loop body, failed
  or not, appends one record and advances the counter, and with the socket closed the
  rest of the pass sends and reads nothing and stores the cached values. The next pass
  calls \<^verbatim>\<open>start\<close> again, which waits for a client (for ever, if none comes) and then
  runs a whole session of its own, with its own start time and its own counter from 0.
  That call returns with the socket closed, so the interrupted pass stores cached values
  only, and the interrupted loop goes on with its own counter. The dataset is never
  reset: a call of \<^verbatim>\<open>start\<close> only appends to it.
\<close>

theorem reconnection_behaviour:
  "(start_loop_body t0 c io s = (c', s') \<longrightarrow>
      c' = (if 10 \<le> c + 1 then 0 else c + 1) \<and>
      timestamps (full_dataset s') = timestamps (full_dataset s) @ [stamp_clock io - t0]) \<and>
   (client_socket s \<longrightarrow> \<not> client_socket (send_request s k SendRaises)) \<and>
   (client_socket s \<and> recv_raises r \<longrightarrow> \<not> client_socket (receive_response s r)) \<and>
   (\<not> client_socket s \<longrightarrow>
      start_loop_body t0 c io s =
        ((if 10 \<le> c + 1 then 0 else c + 1), store_data (stamp_clock io - t0) s)) \<and>
   (\<not> client_socket s \<and> now - t0 < 30 \<longrightarrow>
      start_loop t0 c (Tick now rc io # ticks) s =
        (case rc of
           None \<Rightarrow> None
         | Some w \<Rightarrow>
             (case start w s of
                None \<Rightarrow> None
              | Some s1 \<Rightarrow>
                  start_loop t0 (if 10 \<le> c + 1 then 0 else c + 1) ticks
                    (store_data (stamp_clock io - t0) s1)))) \<and>
   (start w s = Some s2 \<longrightarrow>
      \<not> client_socket s2 \<and> extends (full_dataset s) (full_dataset s2))"
proof (intro conjI impI)
  assume b: "start_loop_body t0 c io s = (c', s')"
  show "c' = (if 10 \<le> c + 1 then 0 else c + 1)"
    by (rule body_unfold(1) [OF b])
  show "timestamps (full_dataset s') = timestamps (full_dataset s) @ [stamp_clock io - t0]"
    by (rule body_appends(1) [OF b])
next
  assume "client_socket s"
  then show "\<not> client_socket (send_request s k SendRaises)"
    by (rule send_raises_closes)
next
  assume "client_socket s \<and> recv_raises r"
  then show "\<not> client_socket (receive_response s r)"
    by (simp add: receive_raises)
next
  assume "\<not> client_socket s"
  then show "start_loop_body t0 c io s =
        ((if 10 \<le> c + 1 then 0 else c + 1), store_data (stamp_clock io - t0) s)"
    by (rule body_closed)
next
  assume "\<not> client_socket s \<and> now - t0 < 30"
  then show "start_loop t0 c (Tick now rc io # ticks) s =
        (case rc of
           None \<Rightarrow> None
         | Some w \<Rightarrow>
             (case start w s of
                None \<Rightarrow> None
              | Some s1 \<Rightarrow>
                  start_loop t0 (if 10 \<le> c + 1 then 0 else c + 1) ticks
                    (store_data (stamp_clock io - t0) s1)))"
    using loop_reconnect by blast
next
  assume r: "start w s = Some s2"
  show "\<not> client_socket s2"
    using r by (rule start_closes_socket)
  show "extends (full_dataset s) (full_dataset s2)"
    using r by (rule run_extends)
qed

theorem reconnection_behaviour_witness:
  "fst (start_loop_body 0 0 (dropped_io 5) connected_server) = 1 \<and>
   timestamps (full_dataset (snd (start_loop_body 0 0 (dropped_io 5) connected_server))) = [5] \<and>
   client_socket connected_server \<and> recv_raises recv_error_io \<and>
   \<not> client_socket (send_request connected_server REQ_READ_ACCELERATION SendRaises) \<and>
   \<not> client_socket (receive_response connected_server recv_error_io) \<and>
   \<not> client_socket IMU_Server_init \<and> (6 :: real) - 0 < 30 \<and>
   start_loop_body 0 0 (dropped_io 5) IMU_Server_init = (1, store_data 5 IMU_Server_init) \<and>
   start_loop 0 0 [Tick 6 None (good_io 40)] IMU_Server_init = None \<and>
   start reconnect_world IMU_Server_init \<noteq> None \<and>
   \<not> client_socket (the (start reconnect_world IMU_Server_init)) \<and>
   extends (full_dataset IMU_Server_init) (full_dataset (the (start reconnect_world IMU_Server_init)))"
proof -
  define a where "a = the (start reconnect_world IMU_Server_init)"
  let ?b = "start_loop_body 0 0 (dropped_io 5) connected_server"
  have hb: "?b = (fst ?b, snd ?b)" by simp
  have ra: "start reconnect_world IMU_Server_init = Some (the (start reconnect_world IMU_Server_init))"
    by code_simp
  then have ra': "start reconnect_world IMU_Server_init = Some a"
    by (simp only: a_def)
  have na: "start reconnect_world IMU_Server_init \<noteq> None"
    using ra by (metis option.distinct(1))
  have c: "client_socket connected_server" and e: "recv_raises recv_error_io"
    and i: "\<not> client_socket IMU_Server_init" and t: "(6 :: real) - 0 < 30"
    by (simp_all add: connected_server_def recv_raises_def recv_error_io_def IMU_Server_init_def)
  have d: "timestamps (full_dataset connected_server) = []" "stamp_clock (dropped_io 5) = 5"
    by (simp_all add: connected_server_def IMU_Server_init_def dropped_io_def good_io_def)
  note i1 = reconnection_behaviour
    [of 0 0 "dropped_io 5" connected_server "fst ?b" "snd ?b" REQ_READ_ACCELERATION
      recv_error_io 6 None "[]" reconnect_world a]
  note i2 = reconnection_behaviour
    [of 0 0 "dropped_io 5" IMU_Server_init "fst ?b" "snd ?b" REQ_READ_ACCELERATION
      recv_error_io 6 None "[]" reconnect_world a]
  note i3 = reconnection_behaviour
    [of 0 0 "good_io 40" IMU_Server_init "fst ?b" "snd ?b" REQ_READ_ACCELERATION
      recv_error_io 6 None "[]" reconnect_world a]
  have f1: "fst ?b = 1 \<and> timestamps (full_dataset (snd ?b)) = [5]"
    using i1 hb d by simp
  have f2: "\<not> client_socket (send_request connected_server REQ_READ_ACCELERATION SendRaises) \<and>
      \<not> client_socket (receive_response connected_server recv_error_io)"
    using i1 c e by blast
  have f3: "start_loop_body 0 0 (dropped_io 5) IMU_Server_init = (1, store_data 5 IMU_Server_init)"
    using i2 i d by simp
  have f4: "start_loop 0 0 [Tick 6 None (good_io 40)] IMU_Server_init = None"
    using i3 i t by simp
  have f5: "\<not> client_socket a \<and> extends (full_dataset IMU_Server_init) (full_dataset a)"
    using i2 ra' by blast
  from f1 f2 f3 f4 f5 c e i t na show ?thesis
    unfolding a_def by blast
qed

text \<open>
  The claim as the specification states it fails: the cycle whose first send raises is
  completed, not retried. It advances the counter to 1 and appends the cached values
  with the timestamp 5; the session that then reconnects ends with three records for
  its three passes, the first of them this fabricated one.
\<close>

theorem failed_cycle_not_retried_counterexample:
  "start_loop_body 0 0 (dropped_io 5) connected_server = (1, store_data 5 IMU_Server_init) \<and>
   map_option (\<lambda>s. (acc_x (full_dataset s), timestamps (full_dataset s)))
     (start reconnect_world IMU_Server_init) = Some ([0, 0x3F800000, 0x3F800000], [5, 1 / 10, 40])"
proof -
  have "start_loop_body 0 0 (dropped_io 5) connected_server = (1, store_data 5 IMU_Server_init)"
    by code_simp
  moreover have "map_option (\<lambda>s. (acc_x (full_dataset s), timestamps (full_dataset s)))
     (start reconnect_world IMU_Server_init) = Some ([0, 0x3F800000, 0x3F800000], [5, 1 / 10, 40])"
    by code_simp
  ultimately show ?thesis by (rule conjI)
qed

end
